theory Spec2Isabelle
  imports Main
begin

section \<open>Wall-clock time and its renderings\<close>

text \<open>
  A value of Python's \<open>datetime\<close>, as \<open>datetime.now()\<close> returns it. The fields are in
  their calendar ranges (year below 10000, hour below 24, ...), which is what makes the
  fixed-width renderings below the ones \<open>strftime\<close> produces.
\<close>

record datetime =
  year :: nat
  month :: nat
  day :: nat
  hour :: nat
  minute :: nat
  second :: nat
  microsecond :: nat

abbreviation newline :: char where
  "newline \<equiv> CHR 0x0A"

definition digit :: "nat \<Rightarrow> char" where
  "digit n = ''0123456789'' ! (n mod 10)"

definition pad2 :: "nat \<Rightarrow> string" where
  "pad2 n = [digit (n div 10), digit n]"

definition pad4 :: "nat \<Rightarrow> string" where
  "pad4 n = [digit (n div 1000), digit (n div 100), digit (n div 10), digit n]"

text \<open>\<open>strftime("%H:%M:%S")\<close>\<close>

definition strftime_HMS :: "datetime \<Rightarrow> string" where
  "strftime_HMS t = pad2 (hour t) @ '':'' @ pad2 (minute t) @ '':'' @ pad2 (second t)"

text \<open>\<open>strftime("%Y%m%d_%H%M%S")\<close>\<close>

definition strftime_compact :: "datetime \<Rightarrow> string" where
  "strftime_compact t =
     pad4 (year t) @ pad2 (month t) @ pad2 (day t) @ ''_'' @
     pad2 (hour t) @ pad2 (minute t) @ pad2 (second t)"

text \<open>\<open>strftime('%Y-%m-%d %H:%M:%S')\<close>\<close>

definition strftime_full :: "datetime \<Rightarrow> string" where
  "strftime_full t =
     pad4 (year t) @ ''-'' @ pad2 (month t) @ ''-'' @ pad2 (day t) @ '' '' @ strftime_HMS t"

section \<open>Program state\<close>

text \<open>
  A text file object opened for writing: the path it was opened at, the text written but
  not yet flushed, and whether it has been closed. Storage maps a path to the text of the
  file stored there.
\<close>

record file_obj =
  f_name :: string
  f_buffer :: string
  f_closed :: bool

datatype exn = ValueError | AttributeError | TypeError | ConnectionClosed

text \<open>
  The module's globals (\<open>connected_clients\<close>, \<open>session_file\<close>, \<open>session_start_time\<close>)
  together with what they act on: the stored files, and for every websocket handle the
  frames its peer has received. \<open>clients_lock\<close> makes each access to the set one atomic
  step, which is how the steps below are written.
\<close>

record 'c state =
  connected_clients :: "'c set"
  session_file :: "file_obj option"
  session_start_time :: "datetime option"
  files :: "string \<rightharpoonup> string"
  received :: "'c \<Rightarrow> string list"

text \<open>
  A call either returns with the new state (\<open>Inr\<close>) or raises an exception (\<open>Inl\<close>),
  leaving the state as it was at the raise.
\<close>

type_synonym 's result = "(exn \<times> 's) + 's"

definition andthen :: "'s result \<Rightarrow> ('s \<Rightarrow> 's result) \<Rightarrow> 's result" where
  "andthen r k = (case r of Inl e \<Rightarrow> Inl e | Inr s \<Rightarrow> k s)"

definition read_file :: "(string \<rightharpoonup> string) \<Rightarrow> string \<Rightarrow> string" where
  "read_file fs p = (case fs p of None \<Rightarrow> [] | Some txt \<Rightarrow> txt)"

subsection \<open>Operations on the session file object\<close>

text \<open>\<open>session_file = open(filename, "w", encoding="utf-8")\<close>: creates or truncates.\<close>

definition sf_open_w :: "string \<Rightarrow> 'c state \<Rightarrow> 'c state" where
  "sf_open_w filename s =
     s\<lparr>session_file := Some \<lparr>f_name = filename, f_buffer = [], f_closed = False\<rparr>,
       files := (files s)(filename \<mapsto> [])\<rparr>"

text \<open>\<open>session_file.write(data)\<close>: a closed file raises \<open>ValueError\<close>.\<close>

definition sf_write :: "string \<Rightarrow> 'c state \<Rightarrow> 'c state result" where
  "sf_write data s =
     (case session_file s of
        None \<Rightarrow> Inl (AttributeError, s)
      | Some f \<Rightarrow>
          if f_closed f then Inl (ValueError, s)
          else Inr (s\<lparr>session_file := Some (f\<lparr>f_buffer := f_buffer f @ data\<rparr>)\<rparr>))"

text \<open>\<open>session_file.flush()\<close>: the buffered text reaches storage.\<close>

definition sf_flush :: "'c state \<Rightarrow> 'c state result" where
  "sf_flush s =
     (case session_file s of
        None \<Rightarrow> Inl (AttributeError, s)
      | Some f \<Rightarrow>
          if f_closed f then Inl (ValueError, s)
          else Inr (s\<lparr>session_file := Some (f\<lparr>f_buffer := []\<rparr>),
                      files := (files s)(f_name f \<mapsto> read_file (files s) (f_name f) @ f_buffer f)\<rparr>))"

text \<open>\<open>session_file.close()\<close>: flushes, then marks the object closed; closing twice is allowed.\<close>

definition sf_close :: "'c state \<Rightarrow> 'c state result" where
  "sf_close s =
     (case session_file s of
        None \<Rightarrow> Inl (AttributeError, s)
      | Some f \<Rightarrow>
          if f_closed f then Inr s
          else Inr (s\<lparr>session_file := Some (f\<lparr>f_buffer := [], f_closed := True\<rparr>),
                      files := (files s)(f_name f \<mapsto> read_file (files s) (f_name f) @ f_buffer f)\<rparr>))"

section \<open>Session logging\<close>

definition session_filename :: "datetime \<Rightarrow> string" where
  "session_filename t = ''transcripts/transcription_'' @ strftime_compact t @ ''.txt''"

definition session_header :: "datetime \<Rightarrow> string" where
  "session_header t =
     ''Audio Transcription Log'' @ [newline] @
     ''Started: '' @ strftime_full t @ [newline] @
     replicate 80 (CHR ''='') @ [newline, newline]"

text \<open>
  \<open>create_session_file\<close>; \<open>now\<close> is the value \<open>datetime.now()\<close> returns in it. The
  directory made by \<open>os.makedirs\<close> holds no text and is not part of the stored files.
\<close>

definition create_session_file :: "datetime \<Rightarrow> 'c state \<Rightarrow> (exn \<times> 'c state) + (string \<times> 'c state)" where
  "create_session_file now s =
     (let s0 = s\<lparr>session_start_time := Some now\<rparr>;
          timestamp = strftime_compact now;
          filename = ''transcripts/transcription_'' @ timestamp @ ''.txt'';
          s1 = sf_open_w filename s0
      in case andthen (andthen (andthen
                (sf_write (''Audio Transcription Log'' @ [newline]) s1)
                (sf_write (''Started: '' @ strftime_full now @ [newline])))
                (sf_write (replicate 80 (CHR ''='') @ [newline, newline])))
                sf_flush of
           Inl e \<Rightarrow> Inl e
         | Inr s2 \<Rightarrow> Inr (filename, s2))"

text \<open>\<open>log_transcript\<close>; \<open>now\<close> is the value \<open>datetime.now()\<close> returns in it.\<close>

definition log_transcript :: "datetime \<Rightarrow> string \<Rightarrow> bool \<Rightarrow> 'c state \<Rightarrow> 'c state result" where
  "log_transcript now text is_final s =
     (if session_file s = None then Inr s
      else
        let timestamp = strftime_HMS now;
            status = (if is_final then ''FINAL'' else ''PARTIAL'')
        in andthen (andthen
             (sf_write (''['' @ timestamp @ ''] ['' @ status @ '']'' @ [newline]) s)
             (sf_write (''Text: '' @ text @ [newline, newline])))
             sf_flush)"

text \<open>
  The end of the main block (lines 176 to 184): the footer is written and the file closed.
  \<open>session_file\<close> keeps referring to the closed object. The text of the duration, a
  \<open>timedelta\<close>, is a parameter.
\<close>

definition main_shutdown :: "(datetime \<Rightarrow> datetime \<Rightarrow> string) \<Rightarrow> datetime \<Rightarrow> 'c state \<Rightarrow> 'c state result" where
  "main_shutdown timedelta_str session_end_time s =
     (if session_file s \<noteq> None then
        (case session_start_time s of
           None \<Rightarrow> Inl (TypeError, s)
         | Some start \<Rightarrow>
             let duration = timedelta_str session_end_time start
             in andthen (andthen (andthen
                  (sf_write ([newline] @ replicate 80 (CHR ''='') @ [newline]) s)
                  (sf_write (''Session ended: '' @ strftime_full session_end_time @ [newline])))
                  (sf_write (''Duration: '' @ duration @ [newline])))
                  sf_close)
      else Inr s)"

text \<open>The block one call of \<open>log_transcript\<close> is to leave in the log, in the words of the log format.\<close>

definition log_block :: "datetime \<times> string \<times> bool \<Rightarrow> string" where
  "log_block c =
     (case c of (now, text, is_final) \<Rightarrow>
        ''['' @ strftime_HMS now @ ''] ['' @ (if is_final then ''FINAL'' else ''PARTIAL'') @ '']'' @ [newline] @
        ''Text: '' @ text @ [newline, newline])"

text \<open>A sequence of calls of \<open>log_transcript\<close>, each with its clock reading; it stops at the first raise.\<close>

fun log_all :: "(datetime \<times> string \<times> bool) list \<Rightarrow> 'c state \<Rightarrow> 'c state result" where
  "log_all [] s = Inr s"
| "log_all (c # cs) s =
     (case c of (now, text, is_final) \<Rightarrow> andthen (log_transcript now text is_final s) (log_all cs))"

section \<open>Serialising the event\<close>

text \<open>
  \<open>json.dumps\<close> on a dictionary whose values are strings and booleans, with its default
  separators and \<open>ensure_ascii\<close>: inside a string the quote, the backslash and the
  control characters with a short form are escaped by a backslash, the printable ASCII
  characters stand for themselves and every other character is written as
  \<open>\u\<close> and four hexadecimal digits.
\<close>

datatype json_atom = JStr string | JBool bool

abbreviation dquote :: char where
  "dquote \<equiv> CHR 0x22"

abbreviation backslash :: char where
  "backslash \<equiv> CHR 0x5C"

definition hexdigit :: "nat \<Rightarrow> char" where
  "hexdigit n = ''0123456789abcdef'' ! (n mod 16)"

definition escape_char :: "char \<Rightarrow> string" where
  "escape_char c =
     (if c = dquote then [backslash, dquote]
      else if c = backslash then [backslash, backslash]
      else if c = newline then [backslash, CHR ''n'']
      else if c = CHR 0x0D then [backslash, CHR ''r'']
      else if c = CHR 0x09 then [backslash, CHR ''t'']
      else if c = CHR 0x08 then [backslash, CHR ''b'']
      else if c = CHR 0x0C then [backslash, CHR ''f'']
      else if 32 \<le> (of_char c :: nat) \<and> (of_char c :: nat) \<le> 126 then [c]
      else [backslash, CHR ''u'', CHR ''0'', CHR ''0'',
            hexdigit (of_char c div 16), hexdigit (of_char c)])"

definition json_string :: "string \<Rightarrow> string" where
  "json_string txt = [dquote] @ concat (map escape_char txt) @ [dquote]"

fun dumps_atom :: "json_atom \<Rightarrow> string" where
  "dumps_atom (JStr txt) = json_string txt"
| "dumps_atom (JBool b) = (if b then ''true'' else ''false'')"

fun dumps_items :: "(string \<times> json_atom) list \<Rightarrow> string" where
  "dumps_items [] = []"
| "dumps_items [(k, v)] = json_string k @ '': '' @ dumps_atom v"
| "dumps_items ((k, v) # kvs) = json_string k @ '': '' @ dumps_atom v @ '', '' @ dumps_items kvs"

definition json_dumps :: "(string \<times> json_atom) list \<Rightarrow> string" where
  "json_dumps d = ''{'' @ dumps_items d @ ''}''"

section \<open>The set of connected clients\<close>

text \<open>\<open>connected_clients.add(websocket)\<close> and \<open>connected_clients.discard(websocket)\<close>, under the lock.\<close>

definition register :: "'c \<Rightarrow> 'c state \<Rightarrow> 'c state" where
  "register websocket s = s\<lparr>connected_clients := insert websocket (connected_clients s)\<rparr>"

definition unregister :: "'c \<Rightarrow> 'c state \<Rightarrow> 'c state" where
  "unregister websocket s = s\<lparr>connected_clients := connected_clients s - {websocket}\<rparr>"

text \<open>
  \<open>websocket_handler\<close> registers its connection when it starts and unregisters it in its
  \<open>finally\<close> block; in between it only drains the connection. Seen from a broadcast
  running in the other thread, the handlers are a sequence of these two steps.
\<close>

datatype 'c handler_event = Connect 'c | Disconnect 'c

fun handler_step :: "'c handler_event \<Rightarrow> 'c state \<Rightarrow> 'c state" where
  "handler_step (Connect websocket) s = register websocket s"
| "handler_step (Disconnect websocket) s = unregister websocket s"

fun handler_events :: "'c handler_event list \<Rightarrow> 'c state \<Rightarrow> 'c state" where
  "handler_events [] s = s"
| "handler_events (e # es) s = handler_events es (handler_step e s)"

text \<open>One whole connection, from accept to close, with nothing else in between.\<close>

definition websocket_handler :: "'c \<Rightarrow> 'c state \<Rightarrow> 'c state" where
  "websocket_handler websocket s = handler_events [Connect websocket, Disconnect websocket] s"

section \<open>Broadcasting\<close>

text \<open>
  What lies outside the program during one broadcast: the order in which Python iterates
  over a set, what the one \<open>send\<close> on each handle does (it delivers the frame, raises, or
  never completes), and the handler steps the serving thread takes meanwhile. Step \<open>0\<close>
  of \<open>concurrent\<close> falls between the emptiness test and the copy of the set, step
  \<open>k + 1\<close> before the \<open>k\<close>-th send.
\<close>

datatype send_outcome = Delivered | Failed | Stalled

record 'c env =
  iter_order :: "'c set \<Rightarrow> 'c list"
  send_result :: "'c \<Rightarrow> send_outcome"
  concurrent :: "nat \<Rightarrow> 'c handler_event list"

text \<open>\<open>await client.send(message)\<close>; \<open>None\<close> is a send that never completes.\<close>

definition client_send :: "'c env \<Rightarrow> 'c \<Rightarrow> string \<Rightarrow> 'c state \<Rightarrow> 'c state result option" where
  "client_send env client message s =
     (case send_result env client of
        Delivered \<Rightarrow> Some (Inr (s\<lparr>received := (received s)(client := received s client @ [message])\<rparr>))
      | Failed \<Rightarrow> Some (Inl (ConnectionClosed, s))
      | Stalled \<Rightarrow> None)"

text \<open>The loop over the copy; every exception of the model is an \<open>Exception\<close>, so the handler catches it.\<close>

fun send_all :: "'c env \<Rightarrow> nat \<Rightarrow> string \<Rightarrow> 'c list \<Rightarrow> 'c state \<Rightarrow> 'c state result option" where
  "send_all env k message [] s = Some (Inr s)"
| "send_all env k message (client # clients) s =
     (let s1 = handler_events (concurrent env k) s
      in case client_send env client message s1 of
           None \<Rightarrow> None
         | Some (Inr s2) \<Rightarrow> send_all env (Suc k) message clients s2
         | Some (Inl (e, s2)) \<Rightarrow> send_all env (Suc k) message clients (unregister client s2))"

definition broadcast_transcript :: "'c env \<Rightarrow> datetime \<Rightarrow> string \<Rightarrow> bool \<Rightarrow> 'c state \<Rightarrow> 'c state result option" where
  "broadcast_transcript env now text is_final s =
     (if connected_clients s = {} then Some (Inr s)
      else
        let message = json_dumps
              [(''text'', JStr text),
               (''is_final'', JBool is_final),
               (''timestamp'', JStr (strftime_HMS now))];
            s1 = handler_events (concurrent env 0) s;
            clients = iter_order env (connected_clients s1)
        in send_all env 1 message clients s1)"

text \<open>\<open>asyncio.run\<close> runs the coroutine to its end in the calling thread and hands back its outcome.\<close>

definition asyncio_run :: "'s result option \<Rightarrow> 's result option" where
  "asyncio_run coro = coro"

text \<open>\<open>on_text\<close>; \<open>t_log\<close> and \<open>t_send\<close> are the two clock readings taken in it.\<close>

definition on_text :: "'c env \<Rightarrow> datetime \<Rightarrow> datetime \<Rightarrow> string \<Rightarrow> bool \<Rightarrow> 'c state \<Rightarrow> 'c state result option" where
  "on_text env t_log t_send text is_final s =
     (if \<not> is_final then
        (case log_transcript t_log text False s of
           Inl e \<Rightarrow> Some (Inl e)
         | Inr s1 \<Rightarrow> asyncio_run (broadcast_transcript env t_send text False s1))
      else
        (case log_transcript t_log text True s of
           Inl e \<Rightarrow> Some (Inl e)
         | Inr s1 \<Rightarrow> asyncio_run (broadcast_transcript env t_send text True s1)))"

text \<open>The handles a call of \<open>broadcast_transcript\<close> sends to: the copy it takes of the set, if it takes one.\<close>

definition snapshot :: "'c env \<Rightarrow> 'c state \<Rightarrow> 'c set" where
  "snapshot env s =
     (if connected_clients s = {} then {}
      else connected_clients (handler_events (concurrent env 0) s))"

text \<open>The iteration over the copy visits each of its members once.\<close>

definition enumerates :: "'c env \<Rightarrow> 'c set \<Rightarrow> bool" where
  "enumerates env S = (distinct (iter_order env S) \<and> set (iter_order env S) = S)"

text \<open>The frame on the wire, in the words of the subscriber protocol.\<close>

definition wire_frame :: "string \<Rightarrow> bool \<Rightarrow> string \<Rightarrow> string" where
  "wire_frame text is_final timestamp =
     [CHR ''{'', dquote] @ ''text'' @ [dquote] @ '': '' @ json_string text @ '', '' @
     [dquote] @ ''is_final'' @ [dquote] @ '': '' @ (if is_final then ''true'' else ''false'') @ '', '' @
     [dquote] @ ''timestamp'' @ [dquote] @ '': '' @ [dquote] @ timestamp @ [dquote] @ ''}''"

text \<open>The shape \<open>HH:MM:SS\<close>: two digits, a colon, two digits, a colon, two digits.\<close>

definition is_digit :: "char \<Rightarrow> bool" where
  "is_digit c = (c \<in> set ''0123456789'')"

definition is_HHMMSS :: "string \<Rightarrow> bool" where
  "is_HHMMSS ts =
     (length ts = 8 \<and> is_digit (ts ! 0) \<and> is_digit (ts ! 1) \<and> ts ! 2 = CHR '':'' \<and>
      is_digit (ts ! 3) \<and> is_digit (ts ! 4) \<and> ts ! 5 = CHR '':'' \<and>
      is_digit (ts ! 6) \<and> is_digit (ts ! 7))"

section \<open>Concrete inputs\<close>

text \<open>
  A session opened at 14:05:07 and shut down at 14:05:30, with the clock readings of two
  events in between; \<open>td0\<close> is the text of the session's duration.
\<close>

definition t0 :: datetime where
  "t0 = \<lparr>year = 2025, month = 3, day = 9, hour = 14, minute = 5, second = 7, microsecond = 0\<rparr>"

definition t1 :: datetime where
  "t1 = \<lparr>year = 2025, month = 3, day = 9, hour = 14, minute = 5, second = 9, microsecond = 250000\<rparr>"

definition t2 :: datetime where
  "t2 = \<lparr>year = 2025, month = 3, day = 9, hour = 14, minute = 5, second = 12, microsecond = 4100\<rparr>"

definition t3 :: datetime where
  "t3 = \<lparr>year = 2025, month = 3, day = 9, hour = 14, minute = 5, second = 30, microsecond = 0\<rparr>"

definition td0 :: "datetime \<Rightarrow> datetime \<Rightarrow> string" where
  "td0 e st = ''0:00:23''"

definition s_init :: "nat state" where
  "s_init = \<lparr>connected_clients = {}, session_file = None, session_start_time = None,
             files = Map.empty, received = (\<lambda>_. [])\<rparr>"

definition f_open :: file_obj where
  "f_open = \<lparr>f_name = session_filename t0, f_buffer = [], f_closed = False\<rparr>"

definition s_open :: "nat state" where
  "s_open = s_init\<lparr>session_start_time := Some t0, session_file := Some f_open,
                   files := [session_filename t0 \<mapsto> session_header t0]\<rparr>"

definition s_closed :: "nat state" where
  "s_closed = s_open\<lparr>session_file := Some (f_open\<lparr>f_closed := True\<rparr>),
     files := [session_filename t0 \<mapsto> session_header t0 @
        [newline] @ replicate 80 (CHR ''='') @ [newline] @
        ''Session ended: '' @ strftime_full t3 @ [newline] @
        ''Duration: '' @ ''0:00:23'' @ [newline]]\<rparr>"

text \<open>
  Two subscribers during the open session, and three environments for a broadcast to them:
  every send delivers; the send to handle 1 fails while handle 3 connects after the copy
  of the set was taken; the send to handle 2 never completes.
\<close>

definition s_two :: "nat state" where
  "s_two = s_open\<lparr>connected_clients := {1, 2}\<rparr>"

definition s_closed_two :: "nat state" where
  "s_closed_two = s_closed\<lparr>connected_clients := {1, 2}\<rparr>"

definition env_ok :: "nat env" where
  "env_ok = \<lparr>iter_order = (\<lambda>_. [1, 2]), send_result = (\<lambda>_. Delivered), concurrent = (\<lambda>_. [])\<rparr>"

definition env_late :: "nat env" where
  "env_late = \<lparr>iter_order = (\<lambda>_. [1, 2]),
               send_result = (\<lambda>c. if c = 1 then Failed else Delivered),
               concurrent = (\<lambda>k. if k = 1 then [Connect 3] else [])\<rparr>"

definition env_stall :: "nat env" where
  "env_stall = \<lparr>iter_order = (\<lambda>_. [1, 2]),
                send_result = (\<lambda>c. if c = 2 then Stalled else Delivered),
                concurrent = (\<lambda>_. [])\<rparr>"

section \<open>Properties of the building blocks\<close>

lemma andthen_Inr [simp]: "andthen (Inr s) k = k s"
  by (simp add: andthen_def)

lemma andthen_Inl [simp]: "andthen (Inl e) k = Inl e"
  by (simp add: andthen_def)

lemma read_file_upd [simp]: "read_file (fs(p \<mapsto> content)) p = content"
  by (simp add: read_file_def)

lemma handler_step_fields [simp]:
  "received (handler_step e s) = received s"
  "session_file (handler_step e s) = session_file s"
  "files (handler_step e s) = files s"
  by (cases e; simp add: register_def unregister_def)+

lemma handler_events_fields [simp]:
  "received (handler_events es s) = received s"
  "session_file (handler_events es s) = session_file s"
  "files (handler_events es s) = files s"
  by (induction es arbitrary: s; simp)+

lemma handler_events_clients_cong:
  "connected_clients s = connected_clients s' \<Longrightarrow>
   connected_clients (handler_events es s) = connected_clients (handler_events es s')"
proof (induction es arbitrary: s s')
  case Nil
  then show ?case by simp
next
  case (Cons e es)
  have "connected_clients (handler_step e s) = connected_clients (handler_step e s')"
    using Cons.prems by (cases e) (simp_all add: register_def unregister_def)
  from Cons.IH[OF this] show ?case by simp
qed

lemma handler_events_not_member:
  "c \<notin> connected_clients s \<Longrightarrow> Connect c \<notin> set es \<Longrightarrow> c \<notin> connected_clients (handler_events es s)"
proof (induction es arbitrary: s)
  case Nil
  then show ?case by simp
next
  case (Cons e es)
  have "c \<notin> connected_clients (handler_step e s)"
    using Cons.prems by (cases e) (auto simp: register_def unregister_def)
  then show ?case using Cons by simp
qed

lemma send_all_None_iff:
  "send_all env k message clients s = None \<longleftrightarrow> (\<exists>c\<in>set clients. send_result env c = Stalled)"
proof (induction clients arbitrary: k s)
  case Nil
  then show ?case by simp
next
  case (Cons c cs)
  show ?case
    by (cases "send_result env c") (simp_all add: client_send_def Cons.IH Let_def)
qed

lemma send_all_never_raises:
  "send_all env k message clients s \<noteq> Some (Inl e)"
proof (induction clients arbitrary: k s)
  case Nil
  then show ?case by simp
next
  case (Cons c cs)
  show ?case
    by (cases "send_result env c") (simp_all add: client_send_def Cons.IH Let_def)
qed

lemma send_all_returns:
  assumes "\<forall>c\<in>set clients. send_result env c \<noteq> Stalled"
  shows "\<exists>s'. send_all env k message clients s = Some (Inr s')"
proof -
  have "send_all env k message clients s \<noteq> None"
    using assms by (simp add: send_all_None_iff)
  then obtain r where r: "send_all env k message clients s = Some r" by auto
  show ?thesis
  proof (cases r)
    case (Inl e)
    with r send_all_never_raises[of env k message clients s e] show ?thesis by simp
  next
    case (Inr s')
    with r show ?thesis by simp
  qed
qed

lemma send_all_received:
  "send_all env k message clients s = Some (Inr s') \<Longrightarrow> distinct clients \<Longrightarrow>
   received s' c =
     (if c \<in> set clients \<and> send_result env c = Delivered then received s c @ [message]
      else received s c)"
proof (induction clients arbitrary: k s)
  case Nil
  then show ?case by simp
next
  case (Cons x xs)
  show ?case
  proof (cases "send_result env x")
    case Delivered
    with Cons.prems have
      "send_all env (Suc k) message xs
         ((handler_events (concurrent env k) s)
            \<lparr>received := (received s)(x := received s x @ [message])\<rparr>) = Some (Inr s')"
      by (simp add: client_send_def Let_def)
    from Cons.IH[OF this] Cons.prems(2) Delivered show ?thesis by auto
  next
    case Failed
    with Cons.prems have
      "send_all env (Suc k) message xs (unregister x (handler_events (concurrent env k) s)) = Some (Inr s')"
      by (simp add: client_send_def Let_def)
    from Cons.IH[OF this] Cons.prems(2) Failed show ?thesis by (auto simp: unregister_def)
  next
    case Stalled
    with Cons.prems show ?thesis by (simp add: client_send_def Let_def)
  qed
qed

lemma send_all_not_member:
  "send_all env k message clients s = Some (Inr s') \<Longrightarrow> c \<notin> connected_clients s \<Longrightarrow>
   (\<And>j. k \<le> j \<Longrightarrow> Connect c \<notin> set (concurrent env j)) \<Longrightarrow> c \<notin> connected_clients s'"
proof (induction clients arbitrary: k s)
  case Nil
  then show ?case by simp
next
  case (Cons x xs)
  have nm: "c \<notin> connected_clients (handler_events (concurrent env k) s)"
    using Cons.prems(2) Cons.prems(3)[of k] by (simp add: handler_events_not_member)
  have later: "\<And>j. Suc k \<le> j \<Longrightarrow> Connect c \<notin> set (concurrent env j)"
    using Cons.prems(3) by simp
  show ?case
  proof (cases "send_result env x")
    case Delivered
    with Cons.prems(1) have run:
      "send_all env (Suc k) message xs
         ((handler_events (concurrent env k) s)
            \<lparr>received := (received s)(x := received s x @ [message])\<rparr>) = Some (Inr s')"
      by (simp add: client_send_def Let_def)
    show ?thesis by (rule Cons.IH[OF run _ later]) (use nm in simp_all)
  next
    case Failed
    with Cons.prems(1) have run:
      "send_all env (Suc k) message xs (unregister x (handler_events (concurrent env k) s)) = Some (Inr s')"
      by (simp add: client_send_def Let_def)
    show ?thesis by (rule Cons.IH[OF run _ later]) (use nm in \<open>simp_all add: unregister_def\<close>)
  next
    case Stalled
    with Cons.prems(1) show ?thesis by (simp add: client_send_def Let_def)
  qed
qed

lemma send_all_failed_removed:
  "send_all env k message clients s = Some (Inr s') \<Longrightarrow> c \<in> set clients \<Longrightarrow>
   send_result env c = Failed \<Longrightarrow>
   (\<And>j. k \<le> j \<Longrightarrow> Connect c \<notin> set (concurrent env j)) \<Longrightarrow> c \<notin> connected_clients s'"
proof (induction clients arbitrary: k s)
  case Nil
  then show ?case by simp
next
  case (Cons x xs)
  have later: "\<And>j. Suc k \<le> j \<Longrightarrow> Connect c \<notin> set (concurrent env j)"
    using Cons.prems(4) by simp
  show ?case
  proof (cases "x = c")
    case True
    with Cons.prems(1,3) have run:
      "send_all env (Suc k) message xs (unregister c (handler_events (concurrent env k) s)) = Some (Inr s')"
      by (simp add: client_send_def Let_def)
    show ?thesis
      by (rule send_all_not_member[OF run _ later]) (simp_all add: unregister_def)
  next
    case False
    with Cons.prems(2) have mem: "c \<in> set xs" by simp
    show ?thesis
    proof (cases "send_result env x")
      case Delivered
      with Cons.prems(1) have run:
        "send_all env (Suc k) message xs
           ((handler_events (concurrent env k) s)
              \<lparr>received := (received s)(x := received s x @ [message])\<rparr>) = Some (Inr s')"
        by (simp add: client_send_def Let_def)
      show ?thesis by (rule Cons.IH[OF run mem Cons.prems(3) later])
    next
      case Failed
      with Cons.prems(1) have run:
        "send_all env (Suc k) message xs (unregister x (handler_events (concurrent env k) s)) = Some (Inr s')"
        by (simp add: client_send_def Let_def)
      show ?thesis by (rule Cons.IH[OF run mem Cons.prems(3) later])
    next
      case Stalled
      with Cons.prems(1) show ?thesis by (simp add: client_send_def Let_def)
    qed
  qed
qed

section \<open>The session log\<close>

lemma create_session_file_result:
  "create_session_file now s =
     Inr (session_filename now,
          s\<lparr>session_start_time := Some now,
            session_file := Some \<lparr>f_name = session_filename now, f_buffer = [], f_closed = False\<rparr>,
            files := (files s)(session_filename now \<mapsto> session_header now)\<rparr>)"
  by (simp add: create_session_file_def sf_open_w_def sf_write_def sf_flush_def session_filename_def
      session_header_def Let_def)

lemma log_transcript_closed:
  "session_file s = Some f \<Longrightarrow> f_closed f \<Longrightarrow> log_transcript now text is_final s = Inl (ValueError, s)"
  by (simp add: log_transcript_def sf_write_def Let_def)

lemma log_transcript_open:
  "session_file s = Some f \<Longrightarrow> \<not> f_closed f \<Longrightarrow> f_buffer f = [] \<Longrightarrow>
   log_transcript now text is_final s =
     Inr (s\<lparr>files := (files s)(f_name f \<mapsto> read_file (files s) (f_name f) @ log_block (now, text, is_final))\<rparr>)"
  by (simp add: log_transcript_def sf_write_def sf_flush_def log_block_def Let_def)

lemma main_shutdown_open:
  "session_file s = Some f \<Longrightarrow> \<not> f_closed f \<Longrightarrow> f_buffer f = [] \<Longrightarrow> session_start_time s = Some st \<Longrightarrow>
   main_shutdown td e s =
     Inr (s\<lparr>session_file := Some (f\<lparr>f_closed := True\<rparr>),
            files := (files s)(f_name f \<mapsto> read_file (files s) (f_name f) @
               [newline] @ replicate 80 (CHR ''='') @ [newline] @
               ''Session ended: '' @ strftime_full e @ [newline] @
               ''Duration: '' @ td e st @ [newline])\<rparr>)"
  by (simp add: main_shutdown_def sf_write_def sf_close_def Let_def)

text \<open>
  C1. A call of \<open>log_transcript\<close> made after the session file has been closed is not
  a silent no-op: the guard only tests \<open>session_file\<close> against \<open>None\<close>, the shutdown
  path closes the file without resetting the variable, and the write on the closed file
  raises \<open>ValueError\<close>. The state below is the one reached by opening the session at
  \<open>t0\<close> and shutting down at \<open>t3\<close>; no file is modified by the failing call.
\<close>

theorem log_transcript_after_close_raises:
  "create_session_file t0 s_init = Inr (session_filename t0, s_open) \<and>
   main_shutdown td0 t3 s_open = Inr s_closed \<and>
   log_transcript t1 ''hello'' False s_closed = Inl (ValueError, s_closed)"
proof (intro conjI)
  show "create_session_file t0 s_init = Inr (session_filename t0, s_open)"
    by (simp add: create_session_file_result s_open_def s_init_def f_open_def)
  have "main_shutdown td0 t3 s_open =
     Inr (s_open\<lparr>session_file := Some (f_open\<lparr>f_closed := True\<rparr>),
            files := (files s_open)(f_name f_open \<mapsto> read_file (files s_open) (f_name f_open) @
               [newline] @ replicate 80 (CHR ''='') @ [newline] @
               ''Session ended: '' @ strftime_full t3 @ [newline] @
               ''Duration: '' @ td0 t3 t0 @ [newline])\<rparr>)"
    by (rule main_shutdown_open) (simp_all add: s_open_def f_open_def)
  then show "main_shutdown td0 t3 s_open = Inr s_closed"
    by (simp add: s_closed_def s_open_def f_open_def td0_def)
  show "log_transcript t1 ''hello'' False s_closed = Inl (ValueError, s_closed)"
    by (rule log_transcript_closed[where f = "f_open\<lparr>f_closed := True\<rparr>"]) (simp_all add: s_closed_def)
qed

lemma log_all_open:
  "session_file s = Some f \<Longrightarrow> \<not> f_closed f \<Longrightarrow> f_buffer f = [] \<Longrightarrow>
   \<exists>s'. log_all calls s = Inr s' \<and> session_file s' = Some f \<and>
        connected_clients s' = connected_clients s \<and> received s' = received s \<and>
        read_file (files s') (f_name f) = read_file (files s) (f_name f) @ concat (map log_block calls)"
proof (induction calls arbitrary: s)
  case Nil
  then show ?case by simp
next
  case (Cons c cs)
  obtain now body is_final where c: "c = (now, body, is_final)" by (cases c) auto
  let ?s1 = "s\<lparr>files := (files s)(f_name f \<mapsto> read_file (files s) (f_name f) @ log_block (now, body, is_final))\<rparr>"
  have step: "log_transcript now body is_final s = Inr ?s1"
    using Cons.prems by (rule log_transcript_open)
  have "session_file ?s1 = Some f" using Cons.prems(1) by simp
  from Cons.IH[OF this Cons.prems(2,3)] obtain s' where
    "log_all cs ?s1 = Inr s'" "session_file s' = Some f"
    "connected_clients s' = connected_clients ?s1" "received s' = received ?s1"
    "read_file (files s') (f_name f) = read_file (files ?s1) (f_name f) @ concat (map log_block cs)"
    by blast
  then show ?case using step c by simp
qed

text \<open>
  C8. During an open session (the file object is open and everything written so far has
  been flushed), every sequence of calls of \<open>log_transcript\<close> returns normally, appends
  to the stored log exactly the blocks of the calls, one per call and in the order of the
  calls, each tagged \<open>FINAL\<close> exactly when \<open>is_final\<close> holds, and leaves nothing
  buffered: the file object is again the flushed one. As this holds for every sequence,
  it holds after each single call.
\<close>

theorem log_file_holds_one_block_per_call:
  assumes "session_file s = Some f" and "\<not> f_closed f" and "f_buffer f = []"
  shows "\<exists>s'. log_all calls s = Inr s' \<and> session_file s' = Some f \<and>
           read_file (files s') (f_name f) =
             read_file (files s) (f_name f) @ concat (map log_block calls)"
  using log_all_open[OF assms, of calls] by blast

theorem log_file_holds_one_block_per_call_witness:
  "session_file s_open = Some f_open \<and> \<not> f_closed f_open \<and> f_buffer f_open = [] \<and>
   (\<exists>s'. log_all [(t1, ''hello'', False), (t2, ''hello world'', True)] s_open = Inr s' \<and>
      session_file s' = Some f_open \<and>
      read_file (files s') (session_filename t0) =
        session_header t0 @
        ''[14:05:09] [PARTIAL]'' @ [newline] @ ''Text: hello'' @ [newline, newline] @
        ''[14:05:12] [FINAL]'' @ [newline] @ ''Text: hello world'' @ [newline, newline])"
proof -
  have h1: "session_file s_open = Some f_open" by (simp add: s_open_def)
  have h2: "\<not> f_closed f_open" by (simp add: f_open_def)
  have h3: "f_buffer f_open = []" by (simp add: f_open_def)
  have blocks: "concat (map log_block [(t1, ''hello'', False), (t2, ''hello world'', True)]) =
        ''[14:05:09] [PARTIAL]'' @ [newline] @ ''Text: hello'' @ [newline, newline] @
        ''[14:05:12] [FINAL]'' @ [newline] @ ''Text: hello world'' @ [newline, newline]"
    by (simp add: log_block_def strftime_HMS_def pad2_def digit_def t1_def t2_def)
  have old: "read_file (files s_open) (session_filename t0) = session_header t0"
    by (simp add: s_open_def f_open_def)
  have nm: "f_name f_open = session_filename t0" by (simp add: f_open_def)
  from log_file_holds_one_block_per_call[OF h1 h2 h3, of "[(t1, ''hello'', False), (t2, ''hello world'', True)]"]
  obtain s' where a: "log_all [(t1, ''hello'', False), (t2, ''hello world'', True)] s_open = Inr s'"
    and b: "session_file s' = Some f_open"
    and c: "read_file (files s') (f_name f_open) =
              read_file (files s_open) (f_name f_open) @
              concat (map log_block [(t1, ''hello'', False), (t2, ''hello world'', True)])"
    by blast
  have c': "read_file (files s') (session_filename t0) =
        session_header t0 @
        ''[14:05:09] [PARTIAL]'' @ [newline] @ ''Text: hello'' @ [newline, newline] @
        ''[14:05:12] [FINAL]'' @ [newline] @ ''Text: hello world'' @ [newline, newline]"
    using c by (simp only: blocks old nm)
  show ?thesis using h1 h2 h3 a b c' by blast
qed

text \<open>
  C10. \<open>create_session_file\<close> opens the file at a path that depends on the clock reading
  only down to the second, and whatever the storage held at that path before, the file
  holds the header of the new session alone afterwards.
\<close>

theorem create_session_file_truncates:
  "\<exists>s'. create_session_file now s = Inr (session_filename now, s') \<and>
        files s' (session_filename now) = Some (session_header now) \<and>
        session_filename (now\<lparr>microsecond := u\<rparr>) = session_filename now"
  by (simp add: create_session_file_result session_filename_def strftime_compact_def)

text \<open>
  C6. Discarding a handle that is not in the set changes nothing: the call returns and
  the whole state, with it every other member of the set, is as before.
\<close>

theorem unregister_absent_noop:
  "websocket \<notin> connected_clients s \<Longrightarrow> unregister websocket s = s"
  by (simp add: unregister_def)

theorem unregister_absent_noop_witness:
  "(2::nat) \<notin> connected_clients (s_open\<lparr>connected_clients := {1, 3}\<rparr>) \<and>
   unregister 2 (s_open\<lparr>connected_clients := {1, 3}\<rparr>) = s_open\<lparr>connected_clients := {1, 3}\<rparr>"
proof -
  have h: "(2::nat) \<notin> connected_clients (s_open\<lparr>connected_clients := {1, 3}\<rparr>)" by simp
  from unregister_absent_noop[OF h] h show ?thesis by simp
qed

text \<open>
  C7. Registering a handle a second time changes nothing, the set after a registration is
  the old set with the handle added, and after two registrations a single discard removes
  the handle: it was in the set once.
\<close>

theorem register_twice_single_occurrence:
  "register websocket (register websocket s) = register websocket s \<and>
   connected_clients (register websocket s) = insert websocket (connected_clients s) \<and>
   websocket \<notin> connected_clients (unregister websocket (register websocket (register websocket s)))"
  by (simp add: register_def unregister_def)

section \<open>The wire frame\<close>

lemma digit_is_digit: "is_digit (digit n)"
proof -
  have "n mod 10 < length ''0123456789''" by simp
  then have "''0123456789'' ! (n mod 10) \<in> set ''0123456789''" by (rule nth_mem)
  then show ?thesis by (simp only: is_digit_def digit_def)
qed

lemma escape_char_digit: "is_digit c \<Longrightarrow> escape_char c = [c]"
  by (auto simp: is_digit_def escape_char_def)

lemma escape_char_colon: "escape_char (CHR '':'') = '':''"
  by (simp add: escape_char_def)

lemma strftime_HMS_shape: "is_HHMMSS (strftime_HMS t)"
  by (simp add: is_HHMMSS_def strftime_HMS_def pad2_def digit_is_digit)

lemma strftime_HMS_escape: "concat (map escape_char (strftime_HMS t)) = strftime_HMS t"
  by (simp add: strftime_HMS_def pad2_def escape_char_digit digit_is_digit escape_char_colon)

lemma json_dumps_frame:
  "json_dumps [(''text'', JStr text), (''is_final'', JBool is_final), (''timestamp'', JStr (strftime_HMS now))]
   = wire_frame text is_final (strftime_HMS now)"
  by (simp add: json_dumps_def wire_frame_def json_string_def strftime_HMS_escape escape_char_def)

section \<open>Broadcasting to the subscribers\<close>

lemma send_all_keeps_log:
  "send_all env k message clients s = Some (Inr s') \<Longrightarrow>
   session_file s' = session_file s \<and> files s' = files s"
proof (induction clients arbitrary: k s)
  case Nil
  then show ?case by simp
next
  case (Cons x xs)
  show ?case
  proof (cases "send_result env x")
    case Delivered
    with Cons.prems have
      "send_all env (Suc k) message xs
         ((handler_events (concurrent env k) s)
            \<lparr>received := (received s)(x := received s x @ [message])\<rparr>) = Some (Inr s')"
      by (simp add: client_send_def Let_def)
    from Cons.IH[OF this] show ?thesis by simp
  next
    case Failed
    with Cons.prems have
      "send_all env (Suc k) message xs (unregister x (handler_events (concurrent env k) s)) = Some (Inr s')"
      by (simp add: client_send_def Let_def)
    from Cons.IH[OF this] show ?thesis by (simp add: unregister_def)
  next
    case Stalled
    with Cons.prems show ?thesis by (simp add: client_send_def Let_def)
  qed
qed

lemma snapshot_nonempty:
  "connected_clients s \<noteq> {} \<Longrightarrow>
   snapshot env s = connected_clients (handler_events (concurrent env 0) s)"
  by (simp add: snapshot_def)

lemma broadcast_transcript_empty:
  "connected_clients s = {} \<Longrightarrow> broadcast_transcript env now text is_final s = Some (Inr s)"
  by (simp add: broadcast_transcript_def)

lemma broadcast_transcript_nonempty:
  "connected_clients s \<noteq> {} \<Longrightarrow>
   broadcast_transcript env now text is_final s =
     send_all env 1
       (json_dumps [(''text'', JStr text), (''is_final'', JBool is_final),
                    (''timestamp'', JStr (strftime_HMS now))])
       (iter_order env (snapshot env s))
       (handler_events (concurrent env 0) s)"
  by (simp add: broadcast_transcript_def snapshot_def Let_def)

lemma broadcast_transcript_None_iff:
  assumes "enumerates env (connected_clients (handler_events (concurrent env 0) s))"
  shows "broadcast_transcript env now text is_final s = None \<longleftrightarrow>
         (\<exists>c\<in>snapshot env s. send_result env c = Stalled)"
proof (cases "connected_clients s = {}")
  case True
  then show ?thesis by (simp add: broadcast_transcript_empty snapshot_def)
next
  case False
  have "set (iter_order env (snapshot env s)) = snapshot env s"
    using assms False by (simp add: enumerates_def snapshot_def)
  then show ?thesis
    using False by (simp add: broadcast_transcript_nonempty send_all_None_iff)
qed

lemma broadcast_transcript_never_raises:
  "broadcast_transcript env now text is_final s \<noteq> Some (Inl e)"
  by (cases "connected_clients s = {}")
     (simp_all add: broadcast_transcript_empty broadcast_transcript_nonempty send_all_never_raises)

lemma broadcast_transcript_returns:
  assumes "enumerates env (connected_clients (handler_events (concurrent env 0) s))"
      and "\<forall>c\<in>snapshot env s. send_result env c \<noteq> Stalled"
  shows "\<exists>s'. broadcast_transcript env now text is_final s = Some (Inr s')"
proof -
  have "broadcast_transcript env now text is_final s \<noteq> None"
    using assms by (simp add: broadcast_transcript_None_iff)
  then obtain r where r: "broadcast_transcript env now text is_final s = Some r" by auto
  show ?thesis
  proof (cases r)
    case (Inl e)
    with r broadcast_transcript_never_raises[of env now _ is_final s e] show ?thesis by simp
  next
    case (Inr s')
    with r show ?thesis by simp
  qed
qed

lemma broadcast_transcript_received:
  assumes "enumerates env (connected_clients (handler_events (concurrent env 0) s))"
      and "broadcast_transcript env now text is_final s = Some (Inr s')"
  shows "received s' c =
     (if c \<in> snapshot env s \<and> send_result env c = Delivered
      then received s c @
        [json_dumps [(''text'', JStr text), (''is_final'', JBool is_final),
                     (''timestamp'', JStr (strftime_HMS now))]]
      else received s c)"
proof (cases "connected_clients s = {}")
  case True
  with assms(2) show ?thesis by (simp add: broadcast_transcript_empty snapshot_def)
next
  case False
  have en: "distinct (iter_order env (snapshot env s))"
           "set (iter_order env (snapshot env s)) = snapshot env s"
    using assms(1) False by (simp_all add: enumerates_def snapshot_def)
  from assms(2) False have run:
    "send_all env 1
       (json_dumps [(''text'', JStr text), (''is_final'', JBool is_final),
                    (''timestamp'', JStr (strftime_HMS now))])
       (iter_order env (snapshot env s))
       (handler_events (concurrent env 0) s) = Some (Inr s')"
    by (simp add: broadcast_transcript_nonempty)
  from send_all_received[OF run en(1), of c] show ?thesis by (simp add: en(2))
qed

lemma broadcast_transcript_keeps_log:
  "broadcast_transcript env now text is_final s = Some (Inr s') \<Longrightarrow>
   session_file s' = session_file s \<and> files s' = files s"
proof (cases "connected_clients s = {}")
  case True
  assume "broadcast_transcript env now text is_final s = Some (Inr s')"
  with True show ?thesis by (simp add: broadcast_transcript_empty)
next
  case False
  assume "broadcast_transcript env now text is_final s = Some (Inr s')"
  with False have
    "send_all env 1
       (json_dumps [(''text'', JStr text), (''is_final'', JBool is_final),
                    (''timestamp'', JStr (strftime_HMS now))])
       (iter_order env (snapshot env s))
       (handler_events (concurrent env 0) s) = Some (Inr s')"
    by (simp add: broadcast_transcript_nonempty)
  from send_all_keeps_log[OF this] show ?thesis by simp
qed

lemma broadcast_transcript_failed_removed:
  assumes "enumerates env (connected_clients (handler_events (concurrent env 0) s))"
      and "broadcast_transcript env now text is_final s = Some (Inr s')"
      and "c \<in> snapshot env s" and "send_result env c = Failed"
      and "\<And>j. 0 < j \<Longrightarrow> Connect c \<notin> set (concurrent env j)"
  shows "c \<notin> connected_clients s'"
proof -
  from assms(3) have ne: "connected_clients s \<noteq> {}"
    by (auto simp: snapshot_def split: if_splits)
  have mem: "c \<in> set (iter_order env (snapshot env s))"
    using assms(1,3) ne by (simp add: enumerates_def snapshot_def)
  from assms(2) ne have run:
    "send_all env 1
       (json_dumps [(''text'', JStr text), (''is_final'', JBool is_final),
                    (''timestamp'', JStr (strftime_HMS now))])
       (iter_order env (snapshot env s))
       (handler_events (concurrent env 0) s) = Some (Inr s')"
    by (simp add: broadcast_transcript_nonempty)
  have later: "\<And>j. 1 \<le> j \<Longrightarrow> Connect c \<notin> set (concurrent env j)"
    using assms(5) by simp
  show ?thesis by (rule send_all_failed_removed[OF run mem assms(4) later])
qed

text \<open>
  C2. When the iteration over the copied set visits each member once and no send to a
  member of the copy hangs, \<open>broadcast_transcript\<close> returns normally, every handle that
  was in the copy and whose send succeeds has received exactly one more frame, the
  serialised event, and every other handle, in particular one registered by a handler
  step after the copy was taken, has received nothing.
\<close>

theorem broadcast_fan_out:
  assumes "enumerates env (connected_clients (handler_events (concurrent env 0) s))"
      and "\<forall>c\<in>snapshot env s. send_result env c \<noteq> Stalled"
  shows "\<exists>s'. broadcast_transcript env now text is_final s = Some (Inr s') \<and>
           (\<forall>c. received s' c =
              (if c \<in> snapshot env s \<and> send_result env c = Delivered
               then received s c @
                 [json_dumps [(''text'', JStr text), (''is_final'', JBool is_final),
                              (''timestamp'', JStr (strftime_HMS now))]]
               else received s c))"
proof -
  from broadcast_transcript_returns[OF assms] obtain s' where
    r: "broadcast_transcript env now text is_final s = Some (Inr s')" by blast
  from broadcast_transcript_received[OF assms(1) r] r show ?thesis by blast
qed

lemma snapshot_s_two [simp]: "concurrent env 0 = [] \<Longrightarrow> snapshot env s_two = {1, 2}"
  by (simp add: snapshot_def s_two_def)

lemma enumerates_late: "enumerates env_late (connected_clients (handler_events (concurrent env_late 0) s_two))"
  by (simp add: enumerates_def env_late_def s_two_def)

lemma snapshot_late: "snapshot env_late s_two = {1, 2}"
  by (simp add: env_late_def)

lemma no_stall_late: "\<forall>c\<in>snapshot env_late s_two. send_result env_late c \<noteq> Stalled"
  by (simp add: snapshot_late) (simp add: env_late_def)

lemma received_s_two: "received s_two c = []"
  by (simp add: s_two_def s_open_def s_init_def)

theorem broadcast_fan_out_witness:
  "enumerates env_late (connected_clients (handler_events (concurrent env_late 0) s_two)) \<and>
   (\<exists>s'. broadcast_transcript env_late t1 ''hello'' False s_two = Some (Inr s') \<and>
      received s' 1 = [] \<and>
      received s' 2 = [wire_frame ''hello'' False ''14:05:09''] \<and>
      received s' 3 = [])"
proof -
  from broadcast_fan_out[OF enumerates_late no_stall_late, of t1 "''hello''" False]
  obtain s' where r: "broadcast_transcript env_late t1 ''hello'' False s_two = Some (Inr s')"
    and rc: "\<And>c. received s' c =
              (if c \<in> snapshot env_late s_two \<and> send_result env_late c = Delivered
               then received s_two c @
                 [json_dumps [(''text'', JStr ''hello''), (''is_final'', JBool False),
                              (''timestamp'', JStr (strftime_HMS t1))]]
               else received s_two c)"
    by blast
  have ts: "strftime_HMS t1 = ''14:05:09''"
    by (simp add: strftime_HMS_def pad2_def digit_def t1_def)
  have fr: "json_dumps [(''text'', JStr ''hello''), (''is_final'', JBool False),
                        (''timestamp'', JStr (strftime_HMS t1))] = wire_frame ''hello'' False ''14:05:09''"
    using json_dumps_frame[of "''hello''" False t1] by (simp only: ts)
  have r1: "received s' 1 = []"
    using rc[of 1] by (simp add: snapshot_late received_s_two env_late_def)
  have r2: "received s' 2 = [wire_frame ''hello'' False ''14:05:09'']"
    using rc[of 2] unfolding fr by (simp add: snapshot_late received_s_two env_late_def)
  have r3: "received s' 3 = []"
    using rc[of 3] by (simp add: snapshot_late received_s_two)
  show ?thesis using enumerates_late r r1 r2 r3 by blast
qed

text \<open>
  C3. When the send to a member \<open>S\<close> of the copy fails, no send hangs and no handler
  registers \<open>S\<close> again meanwhile (a handler registers its connection once, when it
  starts), \<open>broadcast_transcript\<close> still returns normally, so the failure does not reach
  the caller; \<open>S\<close> is out of the set when it returns; and every other member of the
  copy whose send succeeds has received the event.
\<close>

theorem broadcast_failure_isolated:
  assumes "enumerates env (connected_clients (handler_events (concurrent env 0) s))"
      and "\<forall>c\<in>snapshot env s. send_result env c \<noteq> Stalled"
      and "S \<in> snapshot env s" and "send_result env S = Failed"
      and "\<forall>j>0. Connect S \<notin> set (concurrent env j)"
  shows "\<exists>s'. broadcast_transcript env now text is_final s = Some (Inr s') \<and>
           S \<notin> connected_clients s' \<and>
           (\<forall>T\<in>snapshot env s. send_result env T = Delivered \<longrightarrow>
              received s' T = received s T @
                [json_dumps [(''text'', JStr text), (''is_final'', JBool is_final),
                             (''timestamp'', JStr (strftime_HMS now))]])"
proof -
  from broadcast_transcript_returns[OF assms(1,2)] obtain s' where
    r: "broadcast_transcript env now text is_final s = Some (Inr s')" by blast
  have gone: "S \<notin> connected_clients s'"
    by (rule broadcast_transcript_failed_removed[OF assms(1) r assms(3,4)]) (use assms(5) in simp)
  have "\<forall>T\<in>snapshot env s. send_result env T = Delivered \<longrightarrow>
          received s' T = received s T @
            [json_dumps [(''text'', JStr text), (''is_final'', JBool is_final),
                         (''timestamp'', JStr (strftime_HMS now))]]"
    by (simp add: broadcast_transcript_received[OF assms(1) r])
  with r gone show ?thesis by blast
qed

theorem broadcast_failure_isolated_witness:
  "enumerates env_late (connected_clients (handler_events (concurrent env_late 0) s_two)) \<and>
   1 \<in> snapshot env_late s_two \<and> send_result env_late 1 = Failed \<and>
   2 \<in> snapshot env_late s_two \<and> send_result env_late 2 = Delivered \<and>
   (\<exists>s'. broadcast_transcript env_late t2 ''hello world'' True s_two = Some (Inr s') \<and>
      1 \<notin> connected_clients s' \<and>
      received s' 2 = [wire_frame ''hello world'' True ''14:05:12''])"
proof -
  have m1: "1 \<in> snapshot env_late s_two" and m2: "2 \<in> snapshot env_late s_two"
    by (simp_all add: snapshot_late)
  have f1: "send_result env_late 1 = Failed" and d2: "send_result env_late 2 = Delivered"
    by (simp_all add: env_late_def)
  have nc: "\<forall>j>0. Connect 1 \<notin> set (concurrent env_late j)"
    by (simp add: env_late_def)
  from broadcast_failure_isolated[OF enumerates_late no_stall_late m1 f1 nc, of t2 "''hello world''" True]
  obtain s' where r: "broadcast_transcript env_late t2 ''hello world'' True s_two = Some (Inr s')"
    and gone: "1 \<notin> connected_clients s'"
    and rc: "\<forall>T\<in>snapshot env_late s_two. send_result env_late T = Delivered \<longrightarrow>
              received s' T = received s_two T @
                [json_dumps [(''text'', JStr ''hello world''), (''is_final'', JBool True),
                             (''timestamp'', JStr (strftime_HMS t2))]]"
    by blast
  have ts: "strftime_HMS t2 = ''14:05:12''"
    by (simp add: strftime_HMS_def pad2_def digit_def t2_def)
  have fr: "json_dumps [(''text'', JStr ''hello world''), (''is_final'', JBool True),
                        (''timestamp'', JStr (strftime_HMS t2))] = wire_frame ''hello world'' True ''14:05:12''"
    using json_dumps_frame[of "''hello world''" True t2] by (simp only: ts)
  from rc m2 d2 have "received s' 2 = received s_two 2 @
                [json_dumps [(''text'', JStr ''hello world''), (''is_final'', JBool True),
                             (''timestamp'', JStr (strftime_HMS t2))]]"
    by blast
  then have r2: "received s' 2 = [wire_frame ''hello world'' True ''14:05:12'']"
    unfolding fr by (simp add: received_s_two)
  show ?thesis using enumerates_late m1 f1 m2 d2 r gone r2 by blast
qed

text \<open>
  C4. Within one call, every member of the copy whose send succeeds receives the same
  frame: the JSON object with the three fields \<open>text\<close> (the string), \<open>is_final\<close>
  (\<open>true\<close> or \<open>false\<close>) and \<open>timestamp\<close> (a string), in this order, where the
  timestamp is the clock reading taken in the call, rendered as \<open>HH:MM:SS\<close>.
\<close>

theorem broadcast_identical_frame:
  assumes "enumerates env (connected_clients (handler_events (concurrent env 0) s))"
      and "\<forall>c\<in>snapshot env s. send_result env c \<noteq> Stalled"
  shows "\<exists>s'. broadcast_transcript env now text is_final s = Some (Inr s') \<and>
           (\<forall>c\<in>snapshot env s. send_result env c = Delivered \<longrightarrow>
              received s' c = received s c @ [wire_frame text is_final (strftime_HMS now)]) \<and>
           is_HHMMSS (strftime_HMS now)"
proof -
  from broadcast_transcript_returns[OF assms(1,2)] obtain s' where
    r: "broadcast_transcript env now text is_final s = Some (Inr s')" by blast
  have "\<forall>c\<in>snapshot env s. send_result env c = Delivered \<longrightarrow>
          received s' c = received s c @ [wire_frame text is_final (strftime_HMS now)]"
    by (simp add: broadcast_transcript_received[OF assms(1) r] json_dumps_frame)
  with r strftime_HMS_shape[of now] show ?thesis by blast
qed

lemma enumerates_ok: "enumerates env_ok (connected_clients (handler_events (concurrent env_ok 0) s_two))"
  by (simp add: enumerates_def env_ok_def s_two_def)

lemma snapshot_ok: "snapshot env_ok s_two = {1, 2}"
  by (simp add: env_ok_def)

lemma no_stall_ok: "\<forall>c\<in>snapshot env_ok s_two. send_result env_ok c \<noteq> Stalled"
  by (simp add: snapshot_ok) (simp add: env_ok_def)

theorem broadcast_identical_frame_witness:
  "enumerates env_ok (connected_clients (handler_events (concurrent env_ok 0) s_two)) \<and>
   (\<exists>s'. broadcast_transcript env_ok t1 ''hello'' False s_two = Some (Inr s') \<and>
      received s' 1 = [wire_frame ''hello'' False ''14:05:09''] \<and>
      received s' 2 = [wire_frame ''hello'' False ''14:05:09'']) \<and>
   is_HHMMSS ''14:05:09''"
proof -
  from broadcast_identical_frame[OF enumerates_ok no_stall_ok, of t1 "''hello''" False]
  obtain s' where r: "broadcast_transcript env_ok t1 ''hello'' False s_two = Some (Inr s')"
    and rc: "\<forall>c\<in>snapshot env_ok s_two. send_result env_ok c = Delivered \<longrightarrow>
              received s' c = received s_two c @ [wire_frame ''hello'' False (strftime_HMS t1)]"
    and sh: "is_HHMMSS (strftime_HMS t1)"
    by blast
  have ts: "strftime_HMS t1 = ''14:05:09''"
    by (simp add: strftime_HMS_def pad2_def digit_def t1_def)
  have m: "1 \<in> snapshot env_ok s_two" "2 \<in> snapshot env_ok s_two"
    by (simp_all add: snapshot_ok)
  have d: "send_result env_ok 1 = Delivered" "send_result env_ok 2 = Delivered"
    by (simp_all add: env_ok_def)
  from rc m(1) d(1) have "received s' 1 = received s_two 1 @ [wire_frame ''hello'' False (strftime_HMS t1)]"
    by blast
  then have r1: "received s' 1 = [wire_frame ''hello'' False ''14:05:09'']"
    unfolding ts by (simp add: received_s_two)
  from rc m(2) d(2) have "received s' 2 = received s_two 2 @ [wire_frame ''hello'' False (strftime_HMS t1)]"
    by blast
  then have r2: "received s' 2 = [wire_frame ''hello'' False ''14:05:09'']"
    unfolding ts by (simp add: received_s_two)
  from sh have sh': "is_HHMMSS ''14:05:09''" unfolding ts .
  show ?thesis using enumerates_ok r r1 r2 sh' by blast
qed

section \<open>The recognition callback\<close>

lemma on_text_eq:
  "on_text env t_log t_send text is_final s =
     (case log_transcript t_log text is_final s of
        Inl e \<Rightarrow> Some (Inl e)
      | Inr s1 \<Rightarrow> broadcast_transcript env t_send text is_final s1)"
  by (cases is_final) (auto simp: on_text_def asyncio_run_def split: sum.splits)

lemma sf_write_keeps_hub:
  "sf_write data s = Inr s1 \<Longrightarrow>
   connected_clients s1 = connected_clients s \<and> received s1 = received s"
  by (auto simp: sf_write_def split: option.splits if_splits)

lemma sf_flush_keeps_hub:
  "sf_flush s = Inr s1 \<Longrightarrow>
   connected_clients s1 = connected_clients s \<and> received s1 = received s"
  by (auto simp: sf_flush_def split: option.splits if_splits)

lemma log_transcript_keeps_hub:
  assumes "log_transcript now text is_final s = Inr s1"
  shows "connected_clients s1 = connected_clients s \<and> received s1 = received s"
proof (cases "session_file s = None")
  case True
  with assms show ?thesis by (simp add: log_transcript_def)
next
  case False
  let ?l1 = "''['' @ strftime_HMS now @ ''] ['' @ (if is_final then ''FINAL'' else ''PARTIAL'') @ '']'' @ [newline]"
  let ?l2 = "''Text: '' @ text @ [newline, newline]"
  from assms False have run: "andthen (andthen (sf_write ?l1 s) (sf_write ?l2)) sf_flush = Inr s1"
    by (simp add: log_transcript_def Let_def)
  then obtain a where a: "sf_write ?l1 s = Inr a"
    by (cases "sf_write ?l1 s") (simp_all add: andthen_def)
  with run obtain b where b: "sf_write ?l2 a = Inr b"
    by (cases "sf_write ?l2 a") (simp_all add: andthen_def)
  with run a have c: "sf_flush b = Inr s1" by simp
  from sf_write_keeps_hub[OF a] sf_write_keeps_hub[OF b] sf_flush_keeps_hub[OF c]
  show ?thesis by simp
qed

lemma snapshot_cong:
  "connected_clients s1 = connected_clients s \<Longrightarrow> snapshot env s1 = snapshot env s"
  using handler_events_clients_cong[of s1 s "concurrent env 0"] by (simp add: snapshot_def)

text \<open>
  C5, as the code has it. \<open>on_text\<close> hands the broadcast to \<open>asyncio.run\<close>, which runs
  it to its end in the calling thread. So \<open>on_text\<close> fails to return exactly when the
  log call returned and the send to some member of the copy never completes; and when it
  returns normally, every member of the copy whose send succeeds has already received the
  frame. The hand-off waits for the deliveries.
\<close>

theorem on_text_returns_after_sends:
  assumes "enumerates env (connected_clients (handler_events (concurrent env 0) s))"
  shows "(on_text env t_log t_send text is_final s = None) =
           ((\<exists>s1. log_transcript t_log text is_final s = Inr s1) \<and>
            (\<exists>c\<in>snapshot env s. send_result env c = Stalled)) \<and>
         (\<forall>s'. on_text env t_log t_send text is_final s = Some (Inr s') \<longrightarrow>
            (\<forall>c\<in>snapshot env s. send_result env c = Delivered \<longrightarrow>
               received s' c = received s c @
                 [json_dumps [(''text'', JStr text), (''is_final'', JBool is_final),
                              (''timestamp'', JStr (strftime_HMS t_send))]]))"
proof (cases "log_transcript t_log text is_final s")
  case (Inl e)
  then show ?thesis by (simp add: on_text_eq)
next
  case (Inr s1)
  from log_transcript_keeps_hub[OF Inr] have
    cc: "connected_clients s1 = connected_clients s" and rr: "received s1 = received s"
    by simp_all
  have sn: "snapshot env s1 = snapshot env s" by (rule snapshot_cong[OF cc])
  have "connected_clients (handler_events (concurrent env 0) s1) =
        connected_clients (handler_events (concurrent env 0) s)"
    by (rule handler_events_clients_cong[OF cc])
  with assms have en: "enumerates env (connected_clients (handler_events (concurrent env 0) s1))"
    by simp
  have ot: "on_text env t_log t_send text is_final s = broadcast_transcript env t_send text is_final s1"
    by (simp add: on_text_eq Inr)
  have first: "(on_text env t_log t_send text is_final s = None) =
           ((\<exists>s1. log_transcript t_log text is_final s = Inr s1) \<and>
            (\<exists>c\<in>snapshot env s. send_result env c = Stalled))"
    using broadcast_transcript_None_iff[OF en, of t_send _ is_final] by (simp add: ot Inr sn)
  have second: "\<forall>s'. on_text env t_log t_send text is_final s = Some (Inr s') \<longrightarrow>
            (\<forall>c\<in>snapshot env s. send_result env c = Delivered \<longrightarrow>
               received s' c = received s c @
                 [json_dumps [(''text'', JStr text), (''is_final'', JBool is_final),
                              (''timestamp'', JStr (strftime_HMS t_send))]])"
  proof (intro allI impI ballI)
    fix s' c
    assume r: "on_text env t_log t_send text is_final s = Some (Inr s')"
      and c: "c \<in> snapshot env s" and d: "send_result env c = Delivered"
    from r have "broadcast_transcript env t_send text is_final s1 = Some (Inr s')"
      by (simp add: ot)
    from broadcast_transcript_received[OF en this, of c] c d
    show "received s' c = received s c @
                 [json_dumps [(''text'', JStr text), (''is_final'', JBool is_final),
                              (''timestamp'', JStr (strftime_HMS t_send))]]"
      by (simp add: sn rr)
  qed
  from first second show ?thesis by blast
qed

lemma enumerates_stall: "enumerates env_stall (connected_clients (handler_events (concurrent env_stall 0) s_two))"
  by (simp add: enumerates_def env_stall_def s_two_def)

lemma snapshot_stall: "snapshot env_stall s_two = {1, 2}"
  by (simp add: env_stall_def)

lemma log_s_two:
  "log_transcript now text is_final s_two =
     Inr (s_two\<lparr>files := (files s_two)(f_name f_open \<mapsto>
            read_file (files s_two) (f_name f_open) @ log_block (now, text, is_final))\<rparr>)"
  by (rule log_transcript_open) (simp_all add: s_two_def s_open_def f_open_def)

theorem on_text_returns_after_sends_witness:
  "enumerates env_stall (connected_clients (handler_events (concurrent env_stall 0) s_two)) \<and>
   on_text env_stall t2 t2 ''hello world'' True s_two = None"
proof -
  have "\<exists>s1. log_transcript t2 ''hello world'' True s_two = Inr s1"
    by (simp add: log_s_two)
  moreover have "\<exists>c\<in>snapshot env_stall s_two. send_result env_stall c = Stalled"
    by (simp add: snapshot_stall) (simp add: env_stall_def)
  ultimately have "on_text env_stall t2 t2 ''hello world'' True s_two = None"
    using on_text_returns_after_sends[OF enumerates_stall, of t2 t2 "''hello world''" True] by blast
  with enumerates_stall show ?thesis by blast
qed

text \<open>
  C5 as stated fails: with two subscribers, the second of which never completes its send,
  the call of \<open>on_text\<close> does not return.
\<close>

theorem on_text_blocks_on_stalled_send:
  "on_text env_stall t1 t1 ''hello'' False s_two = None"
proof -
  let ?s1 = "s_two\<lparr>files := (files s_two)(f_name f_open \<mapsto>
            read_file (files s_two) (f_name f_open) @ log_block (t1, ''hello'', False))\<rparr>"
  have ne: "connected_clients ?s1 \<noteq> {}" by (simp add: s_two_def)
  have it: "iter_order env_stall (snapshot env_stall ?s1) = [1, 2]" by (simp add: env_stall_def)
  have "broadcast_transcript env_stall t1 ''hello'' False ?s1 = None"
    unfolding broadcast_transcript_nonempty[OF ne] it
    by (simp add: client_send_def env_stall_def Let_def)
  then show ?thesis by (simp add: on_text_eq log_s_two)
qed

text \<open>
  C9. After the shutdown path has closed the session file with two subscribers still
  connected, a call of \<open>on_text\<close> makes its log call, which raises \<open>ValueError\<close>, and
  makes no broadcast call: the exception leaves \<open>on_text\<close> with the state untouched, so
  neither subscriber receives the event.
\<close>

theorem on_text_after_close_skips_broadcast:
  "main_shutdown td0 t3 s_two = Inr s_closed_two \<and>
   connected_clients s_closed_two = {1, 2} \<and>
   on_text env_ok t1 t1 ''hello'' False s_closed_two = Some (Inl (ValueError, s_closed_two))"
proof (intro conjI)
  have "main_shutdown td0 t3 s_two =
     Inr (s_two\<lparr>session_file := Some (f_open\<lparr>f_closed := True\<rparr>),
            files := (files s_two)(f_name f_open \<mapsto> read_file (files s_two) (f_name f_open) @
               [newline] @ replicate 80 (CHR ''='') @ [newline] @
               ''Session ended: '' @ strftime_full t3 @ [newline] @
               ''Duration: '' @ td0 t3 t0 @ [newline])\<rparr>)"
    by (rule main_shutdown_open) (simp_all add: s_two_def s_open_def f_open_def)
  then show "main_shutdown td0 t3 s_two = Inr s_closed_two"
    by (simp add: s_closed_two_def s_closed_def s_two_def s_open_def f_open_def td0_def)
  show "connected_clients s_closed_two = {1, 2}" by (simp add: s_closed_two_def)
  have "log_transcript t1 ''hello'' False s_closed_two = Inl (ValueError, s_closed_two)"
    by (rule log_transcript_closed[where f = "f_open\<lparr>f_closed := True\<rparr>"])
       (simp_all add: s_closed_two_def s_closed_def)
  then show "on_text env_ok t1 t1 ''hello'' False s_closed_two = Some (Inl (ValueError, s_closed_two))"
    by (simp add: on_text_eq)
qed

end
